theory Spec2Isabelle
  imports Main
begin

section \<open>Data model\<close>

text \<open>
  The persisted schema (the migration that creates the tables \<open>jobs\<close> and \<open>dlq\<close>) and the
  objects the services read and write. Timestamps are milliseconds since the epoch, as
  \<open>Date.now()\<close> returns them. A nullable column is an \<open>option\<close>.
\<close>

datatype JobStatus = Pending | Running | Completed | Failed

text \<open>
  A JSON value, as \<open>express.json()\<close> parses a request body. Numbers are integers here; the
  only thing the code asks of a number is whether it is zero.
\<close>

datatype json =
    JNull
  | JBool bool
  | JNum int
  | JStr string
  | JArr "json list"
  | JObj "(string \<times> json) list"


text \<open>
  A row of \<open>jobs\<close>. The column \<open>id\<close> is \<open>jid\<close> here (\<open>id\<close> is HOL's identity function).
  \<open>retry_count\<close> and \<open>max_retries\<close> start at 0 and 3 and are only ever incremented, so they
  are natural numbers.
\<close>

record job =
  jid :: string
  tenantId :: string
  status :: JobStatus
  payload :: json
  idempotencyKey :: "string option"
  retryCount :: nat
  maxRetries :: nat
  leaseExpiresAt :: "int option"
  workerId :: "string option"
  createdAt :: int
  startedAt :: "int option"
  completedAt :: "int option"
  errorMessage :: "string option"
  traceId :: string

text \<open>A row of \<open>dlq\<close>; its \<open>id\<close>, \<open>payload\<close> and \<open>trace_id\<close> columns carry the prefix \<open>dlq\<close>.\<close>

record dlqEntry =
  dlqId :: string
  jobId :: string
  dlqPayload :: json
  finalError :: string
  failedAt :: int
  dlqTraceId :: string

record store =
  jobs :: "job list"
  dlq :: "dlqEntry list"

datatype error =
    UniqueViolation
  | ForeignKeyViolation
  | RecordNotFound
  | RedisError

section \<open>Rate limiter (services/rateLimiter.ts)\<close>

text \<open>
  The keyed store holds one sorted set per key: a list of (member, score) with distinct
  members. A key that does not exist is the empty set. The member that \<open>checkRateLimit\<close>
  adds is the string \<open>now-random\<close>; it is kept as the pair of its two parts. \<open>ttl\<close> is the
  number of seconds last given to \<open>EXPIRE\<close>; the countdown itself is not modelled (when a
  key runs out, every entry in it is at least 60 s old and the next call evicts it anyway).
\<close>

type_synonym member = "int \<times> string"

type_synonym zset = "(member \<times> int) list"

record redis =
  zsets :: "string \<Rightarrow> zset"
  ttl :: "string \<Rightarrow> nat option"

text \<open>
  Each command takes a flag saying whether the store fails on it (the client then throws).
  \<open>ZREMRANGEBYSCORE key min max\<close> removes the members with \<open>min \<le> score \<le> max\<close>; a set
  that becomes empty is deleted with its time to live.
\<close>

definition zRemRangeByScore :: "bool \<Rightarrow> string \<Rightarrow> int \<Rightarrow> int \<Rightarrow> redis \<Rightarrow> error + redis" where
  "zRemRangeByScore down key lo hi r =
     (if down then Inl RedisError
      else let kept = filter (\<lambda>(m, sc). \<not> (lo \<le> sc \<and> sc \<le> hi)) (zsets r key)
           in Inr (r\<lparr>zsets := (zsets r)(key := kept),
                    ttl := (if kept = [] then (ttl r)(key := None) else ttl r)\<rparr>))"

definition zCard :: "bool \<Rightarrow> string \<Rightarrow> redis \<Rightarrow> error + nat" where
  "zCard down key r = (if down then Inl RedisError else Inr (length (zsets r key)))"

text \<open>\<open>ZADD\<close> of a member that is already in the set only changes its score.\<close>

definition zAdd :: "bool \<Rightarrow> string \<Rightarrow> int \<Rightarrow> member \<Rightarrow> redis \<Rightarrow> error + redis" where
  "zAdd down key sc m r =
     (if down then Inl RedisError
      else Inr (r\<lparr>zsets := (zsets r)(key := filter (\<lambda>(m', s'). m' \<noteq> m) (zsets r key) @ [(m, sc)])\<rparr>))"

text \<open>\<open>EXPIRE\<close> on a key that does not exist does nothing.\<close>

definition expire :: "bool \<Rightarrow> string \<Rightarrow> nat \<Rightarrow> redis \<Rightarrow> error + redis" where
  "expire down key secs r =
     (if down then Inl RedisError
      else if zsets r key = [] then Inr r
      else Inr (r\<lparr>ttl := (ttl r)(key \<mapsto> secs)\<rparr>))"

text \<open>
  \<open>checkRateLimit\<close>. \<open>fault = Some i\<close> says that the \<open>i\<close>-th command of this call (from 0)
  throws; the \<open>catch\<close> block then answers \<open>true\<close>. \<open>now\<close> is \<open>Date.now()\<close> and \<open>rnd\<close> is
  what \<open>Math.random()\<close> prints as.
\<close>

definition checkRateLimit :: "nat option \<Rightarrow> string \<Rightarrow> int \<Rightarrow> string \<Rightarrow> redis \<Rightarrow> bool \<times> redis" where
  "checkRateLimit fault tenant now rnd r =
     (let key = ''rate:'' @ tenant; windowMs = 60000 in
      case zRemRangeByScore (fault = Some 0) key 0 (now - windowMs) r of
        Inl e \<Rightarrow> (True, r)
      | Inr r1 \<Rightarrow>
          (case zCard (fault = Some 1) key r1 of
             Inl e \<Rightarrow> (True, r1)
           | Inr count \<Rightarrow>
               if count \<ge> 10 then (False, r1)
               else
                 (case zAdd (fault = Some 2) key now (now, rnd) r1 of
                    Inl e \<Rightarrow> (True, r1)
                  | Inr r2 \<Rightarrow>
                      (case expire (fault = Some 3) key 60 r2 of
                         Inl e \<Rightarrow> (True, r2)
                       | Inr r3 \<Rightarrow> (True, r3)))))"


text \<open>The state of the window of one tenant once the call has evicted, and nothing else.\<close>

definition evicted :: "string \<Rightarrow> int \<Rightarrow> redis \<Rightarrow> redis" where
  "evicted tenant now r =
     (let key = ''rate:'' @ tenant;
          kept = filter (\<lambda>(m, sc). \<not> (0 \<le> sc \<and> sc \<le> now - 60000)) (zsets r key)
      in r\<lparr>zsets := (zsets r)(key := kept),
            ttl := (if kept = [] then (ttl r)(key := None) else ttl r)\<rparr>)"


section \<open>The durable store\<close>

text \<open>
  The Prisma calls the services make, on the two tables. A call that the database
  rejects throws; here it returns the error and leaves the store as it was.
\<close>

definition findUniqueById :: "string \<Rightarrow> store \<Rightarrow> job option" where
  "findUniqueById i st = find (\<lambda>j. jid j = i) (jobs st)"

definition findUniqueByKey :: "string \<Rightarrow> store \<Rightarrow> job option" where
  "findUniqueByKey k st = find (\<lambda>j. idempotencyKey j = Some k) (jobs st)"

text \<open>
  \<open>job.create\<close>: the columns the caller does not give take the defaults of the migration
  (\<open>retry_count\<close> 0, \<open>max_retries\<close> 3, \<open>created_at\<close> the current time, the rest null). The
  primary key and the unique index on \<open>idempotency_key\<close> reject a duplicate; null keys
  never collide.
\<close>

definition jobCreate ::
  "string \<Rightarrow> string \<Rightarrow> json \<Rightarrow> string option \<Rightarrow> string \<Rightarrow> int \<Rightarrow> store \<Rightarrow> error + (job \<times> store)" where
  "jobCreate newId tenant p key trace now st =
     (if newId \<in> set (map jid (jobs st)) then Inl UniqueViolation
      else if key \<noteq> None \<and> key \<in> set (map idempotencyKey (jobs st)) then Inl UniqueViolation
      else
        let j = \<lparr>jid = newId, tenantId = tenant, status = Pending, payload = p,
                 idempotencyKey = key, retryCount = 0, maxRetries = 3,
                 leaseExpiresAt = None, workerId = None, createdAt = now,
                 startedAt = None, completedAt = None, errorMessage = None,
                 traceId = trace\<rparr>
        in Inr (j, st\<lparr>jobs := jobs st @ [j]\<rparr>))"

text \<open>\<open>job.update({where: {id}, data})\<close>: the row with that id, or an error when there is none.\<close>

fun updateRow :: "string \<Rightarrow> (job \<Rightarrow> job) \<Rightarrow> job list \<Rightarrow> (job \<times> job list) option" where
  "updateRow i f [] = None"
| "updateRow i f (j # js) =
     (if jid j = i then Some (f j, f j # js)
      else (case updateRow i f js of None \<Rightarrow> None | Some (u, js') \<Rightarrow> Some (u, j # js')))"

definition jobUpdate :: "string \<Rightarrow> (job \<Rightarrow> job) \<Rightarrow> store \<Rightarrow> error + (job \<times> store)" where
  "jobUpdate i f st =
     (case updateRow i f (jobs st) of
        None \<Rightarrow> Inl RecordNotFound
      | Some (u, js) \<Rightarrow> Inr (u, st\<lparr>jobs := js\<rparr>))"

text \<open>
  \<open>dLQ.create\<close>: \<open>failed_at\<close> defaults to the current time; \<open>job_id\<close> is unique and a
  foreign key to \<open>jobs\<close>.
\<close>

definition dlqCreate ::
  "string \<Rightarrow> string \<Rightarrow> json \<Rightarrow> string \<Rightarrow> string \<Rightarrow> int \<Rightarrow> store \<Rightarrow> error + store" where
  "dlqCreate newId j p err trace now st =
     (if newId \<in> set (map dlqId (dlq st)) \<or> j \<in> set (map jobId (dlq st)) then Inl UniqueViolation
      else if j \<notin> set (map jid (jobs st)) then Inl ForeignKeyViolation
      else Inr (st\<lparr>dlq := dlq st @
             [\<lparr>dlqId = newId, jobId = j, dlqPayload = p, finalError = err,
               failedAt = now, dlqTraceId = trace\<rparr>]\<rparr>))"

section \<open>Job service (services/jobService.ts)\<close>

text \<open>
  \<open>submitJob\<close>. \<open>trace\<close> and \<open>newId\<close> are the two fresh uuids (the trace id drawn at entry and
  the primary key of the new row). \<open>if (idempotencyKey)\<close> is false for a missing key and for
  the empty string.
\<close>

definition submitJob ::
  "string \<Rightarrow> json \<Rightarrow> string option \<Rightarrow> string \<Rightarrow> string \<Rightarrow> int \<Rightarrow> store \<Rightarrow> error + (job \<times> store)" where
  "submitJob tenant p key trace newId now st =
     (case (case key of
              None \<Rightarrow> None
            | Some k \<Rightarrow> if k \<noteq> [] then findUniqueByKey k st else None) of
        Some existing \<Rightarrow> Inr (existing, st)
      | None \<Rightarrow> jobCreate newId tenant p key trace now st)"

definition getJobStatus :: "string \<Rightarrow> store \<Rightarrow> job option" where
  "getJobStatus i st = findUniqueById i st"


text \<open>
  \<open>getMetrics\<close>. The result's \<open>jobs_by_status\<close> is an object keyed by the status name.
  \<open>groupBy\<close> gives one row per status that occurs, with its count.
\<close>

fun statusName :: "JobStatus \<Rightarrow> string" where
  "statusName Pending = ''pending''"
| "statusName Running = ''running''"
| "statusName Completed = ''completed''"
| "statusName Failed = ''failed''"

record metrics =
  jobs_total :: nat
  jobs_by_status :: "string \<Rightarrow> nat option"
  dlq_size :: nat

definition whereTenant :: "string option \<Rightarrow> job \<Rightarrow> bool" where
  "whereTenant tenant j =
     (case tenant of None \<Rightarrow> True | Some t \<Rightarrow> if t \<noteq> [] then tenantId j = t else True)"

definition groupByStatus :: "job list \<Rightarrow> (JobStatus \<times> nat) list" where
  "groupByStatus js =
     filter (\<lambda>(s, c). c > 0)
       (map (\<lambda>s. (s, length (filter (\<lambda>j. status j = s) js))) [Pending, Running, Completed, Failed])"

text \<open>The count of dead-letter entries whose job (through the foreign key) is of the tenant.\<close>

definition dlqCountOfTenant :: "string \<Rightarrow> store \<Rightarrow> nat" where
  "dlqCountOfTenant t st =
     length (filter (\<lambda>d. case findUniqueById (jobId d) st of
                            None \<Rightarrow> False
                          | Some j \<Rightarrow> tenantId j = t) (dlq st))"

text \<open>
  The first copy of \<open>getMetrics\<close> (the file of the job service alone). \<open>tenantId ? ... : ...\<close>
  takes the empty string as no tenant.
\<close>

definition getMetrics :: "string option \<Rightarrow> store \<Rightarrow> metrics" where
  "getMetrics tenant st =
     (let matching = filter (whereTenant tenant) (jobs st);
          total = length matching;
          byStatus = groupByStatus matching;
          dlqCount = (case tenant of
                        None \<Rightarrow> length (dlq st)
                      | Some t \<Rightarrow> if t \<noteq> [] then dlqCountOfTenant t st else length (dlq st));
          jobsByStatus = [''pending'' \<mapsto> 0, ''running'' \<mapsto> 0, ''completed'' \<mapsto> 0, ''failed'' \<mapsto> 0]
      in \<lparr>jobs_total = total,
          jobs_by_status = foldl (\<lambda>acc (s, c). acc(statusName s \<mapsto> c)) jobsByStatus byStatus,
          dlq_size = dlqCount\<rparr>)"


section \<open>Worker service (services/workerService.ts)\<close>

text \<open>
  The \<open>where\<close> of the lease query. A null \<open>lease_expires_at\<close> is not less than anything.
\<close>

definition available :: "int \<Rightarrow> job \<Rightarrow> bool" where
  "available now j =
     (status j = Pending \<or>
      (status j = Running \<and> (case leaseExpiresAt j of None \<Rightarrow> False | Some l \<Rightarrow> l < now)))"

text \<open>\<open>orderBy: {createdAt: "asc"}\<close> and the first row; among equal keys the earlier row.\<close>

fun firstAsc :: "job list \<Rightarrow> job option" where
  "firstAsc [] = None"
| "firstAsc (j # js) =
     (case firstAsc js of
        None \<Rightarrow> Some j
      | Some k \<Rightarrow> if createdAt j \<le> createdAt k then Some j else Some k)"

definition findFirstAvailable :: "int \<Rightarrow> store \<Rightarrow> job option" where
  "findFirstAvailable now st = firstAsc (filter (available now) (jobs st))"

text \<open>
  \<open>acquireLease\<close>, one transaction; the clock reads inside it are one instant \<open>now\<close>. An
  error inside is caught and the answer is null.
\<close>

definition acquireLease :: "string \<Rightarrow> int \<Rightarrow> store \<Rightarrow> job option \<times> store" where
  "acquireLease w now st =
     (case findFirstAvailable now st of
        None \<Rightarrow> (None, st)
      | Some availableJob \<Rightarrow>
          (let lease = now + 5 * 60 * 1000 in
           case jobUpdate (jid availableJob)
                  (\<lambda>j. j\<lparr>status := Running, workerId := Some w, leaseExpiresAt := Some lease,
                          startedAt := (if status availableJob = Pending then Some now
                                        else startedAt availableJob)\<rparr>) st of
             Inl e \<Rightarrow> (None, st)
           | Inr (updatedJob, st') \<Rightarrow> (Some updatedJob, st')))"

definition acknowledgeJob :: "string \<Rightarrow> int \<Rightarrow> store \<Rightarrow> error + store" where
  "acknowledgeJob i now st =
     (case jobUpdate i (\<lambda>j. j\<lparr>status := Completed, completedAt := Some now\<rparr>) st of
        Inl e \<Rightarrow> Inl e
      | Inr (u, st') \<Rightarrow> Inr st')"

text \<open>
  \<open>moveToDeadLetterQueue\<close>: the two writes of the transaction, both or neither. \<open>newId\<close> is
  the primary key the new entry gets.
\<close>

definition moveToDeadLetterQueue :: "job \<Rightarrow> string \<Rightarrow> int \<Rightarrow> string \<Rightarrow> store \<Rightarrow> error + store" where
  "moveToDeadLetterQueue j message now newId st =
     (case dlqCreate newId (jid j) (if payload j = JNull then JNull else payload j)
             message (traceId j) now st of
        Inl e \<Rightarrow> Inl e
      | Inr st1 \<Rightarrow>
          (case jobUpdate (jid j) (\<lambda>r. r\<lparr>status := Failed, errorMessage := Some message\<rparr>) st1 of
             Inl e \<Rightarrow> Inl e
           | Inr (u, st2) \<Rightarrow> Inr st2))"

definition backoffMs :: "nat \<Rightarrow> int" where
  "backoffMs n = min (30000 * 2 ^ n) 600000"

text \<open>\<open>retryJob\<close>: \<open>j\<close> is the job object the worker holds, \<open>message\<close> the error's message.\<close>

definition retryJob :: "job \<Rightarrow> string \<Rightarrow> int \<Rightarrow> string \<Rightarrow> store \<Rightarrow> error + store" where
  "retryJob j message now newId st =
     (if retryCount j \<ge> maxRetries j then moveToDeadLetterQueue j message now newId st
      else
        (case jobUpdate (jid j)
                (\<lambda>r. r\<lparr>status := Pending, retryCount := retryCount j + 1, workerId := None,
                        leaseExpiresAt := None, errorMessage := Some message,
                        createdAt := now + backoffMs (retryCount j)\<rparr>) st of
           Inl e \<Rightarrow> Inl e
         | Inr (u, st') \<Rightarrow> Inr st'))"

text \<open>
  \<open>processJob\<close>: \<open>outcome\<close> is what the handler did, \<open>None\<close> for success and \<open>Some message\<close>
  for the error it threw.
\<close>

definition processJob :: "job \<Rightarrow> string option \<Rightarrow> int \<Rightarrow> string \<Rightarrow> store \<Rightarrow> error + store" where
  "processJob j outcome now newId st =
     (case outcome of
        None \<Rightarrow> acknowledgeJob (jid j) now st
      | Some message \<Rightarrow> retryJob j message now newId st)"

section \<open>The route POST /api/v1/jobs\<close>




section \<open>The system: submitters and workers over one store\<close>

text \<open>
  The services above are single calls. The system runs them in some order: submitters
  create jobs, each worker loops over \<open>acquireLease\<close> and \<open>processJob\<close>. A state holds the
  store, the time of the last call, and the job objects that workers hold between their
  \<open>acquireLease\<close> and the end of their \<open>processJob\<close>. A worker that dies keeps its lease and
  never finishes.

  \<open>timely\<close> restricts the runs: when it is true, a worker finishes a job no later than
  the lease it holds on it expires (the handler of the repository sleeps for 1 to 4
  seconds, the lease lasts 5 minutes). When it is false a worker may finish at any time,
  also after another worker has taken the job over.
\<close>

record sys =
  sysStore :: store
  sysClock :: int
  sysHeld :: "job list"

definition sys0 :: sys where
  "sys0 = \<lparr>sysStore = \<lparr>jobs = [], dlq = []\<rparr>, sysClock = 0, sysHeld = []\<rparr>"

definition leaseValid :: "int \<Rightarrow> job \<Rightarrow> bool" where
  "leaseValid now h = (case leaseExpiresAt h of None \<Rightarrow> False | Some l \<Rightarrow> now \<le> l)"

inductive step :: "bool \<Rightarrow> sys \<Rightarrow> sys \<Rightarrow> bool" for timely :: bool where
  submit:
    "sysClock s \<le> now \<Longrightarrow>
     submitJob tenant p key trace newId now (sysStore s) = Inr (j, st') \<Longrightarrow>
     step timely s (s\<lparr>sysStore := st', sysClock := now\<rparr>)"
| lease:
    "sysClock s \<le> now \<Longrightarrow>
     acquireLease w now (sysStore s) = (Some j, st') \<Longrightarrow>
     step timely s \<lparr>sysStore = st', sysClock = now, sysHeld = j # sysHeld s\<rparr>"
| finish:
    "sysClock s \<le> now \<Longrightarrow>
     h \<in> set (sysHeld s) \<Longrightarrow>
     timely \<longrightarrow> leaseValid now h \<Longrightarrow>
     processJob h outcome now newId (sysStore s) = Inr st' \<Longrightarrow>
     step timely s \<lparr>sysStore = st', sysClock = now, sysHeld = removeAll h (sysHeld s)\<rparr>"
| crash:
    "h \<in> set (sysHeld s) \<Longrightarrow>
     step timely s (s\<lparr>sysHeld := removeAll h (sysHeld s)\<rparr>)"
| tick:
    "sysClock s \<le> now \<Longrightarrow> step timely s (s\<lparr>sysClock := now\<rparr>)"

inductive reachable :: "bool \<Rightarrow> sys \<Rightarrow> bool" for timely :: bool where
  initial: "reachable timely sys0"
| after: "reachable timely s \<Longrightarrow> step timely s s' \<Longrightarrow> reachable timely s'"

text \<open>What no update of a row changes: its id, its retry budget, its trace id and its payload.\<close>

definition ident :: "job \<Rightarrow> string \<times> nat \<times> string \<times> json" where
  "ident j = (jid j, maxRetries j, traceId j, payload j)"

text \<open>
  The invariant of every run: ids are unique, no row is over its retry budget, a held job
  object and a dead-letter entry both have their row.
\<close>

definition inv :: "sys \<Rightarrow> bool" where
  "inv s =
     (distinct (map jid (jobs (sysStore s))) \<and>
      (\<forall>j\<in>set (jobs (sysStore s)). retryCount j \<le> maxRetries j) \<and>
      (\<forall>h\<in>set (sysHeld s). ident h \<in> set (map ident (jobs (sysStore s)))) \<and>
      (\<forall>d\<in>set (dlq (sysStore s)).
          \<exists>mr. (jobId d, mr, dlqTraceId d, dlqPayload d) \<in> set (map ident (jobs (sysStore s)))))"


text \<open>
  The invariant on the lease fields, as the specification states it: a job that is pending,
  completed or failed has no worker and no lease.
\<close>

definition leaseFieldsNull :: "job \<Rightarrow> bool" where
  "leaseFieldsNull j =
     (status j \<in> {Pending, Completed, Failed} \<longrightarrow> workerId j = None \<and> leaseExpiresAt j = None)"

section \<open>Concrete states\<close>

text \<open>The inputs at which the theorems below are evaluated.\<close>

definition payloadX :: json where
  "payloadX = JObj [(''task'', JStr ''x'')]"



text \<open>Ten submissions of tenant A at time 1500.\<close>

definition redisFull :: redis where
  "redisFull =
     \<lparr>zsets = (\<lambda>k. if k = ''rate:A'' then map (\<lambda>c. ((1500, [c]), 1500)) ''0123456789'' else []),
      ttl = (\<lambda>k. if k = ''rate:A'' then Some 60 else None)\<rparr>"




text \<open>
  One job of tenant A through its life: submitted at 0, leased and failed three times,
  leased a fourth time by worker w1 at 70.
\<close>

definition job1 :: job where
  "job1 = \<lparr>jid = ''j1'', tenantId = ''A'', status = Pending, payload = payloadX,
           idempotencyKey = None, retryCount = 0, maxRetries = 3,
           leaseExpiresAt = None, workerId = None, createdAt = 0,
           startedAt = None, completedAt = None, errorMessage = None, traceId = ''t1''\<rparr>"

definition jobL1 :: job where
  "jobL1 = job1\<lparr>status := Running, workerId := Some ''w1'', leaseExpiresAt := Some 300010,
                 startedAt := Some 10\<rparr>"

definition jobA1 :: job where
  "jobA1 = jobL1\<lparr>status := Completed, completedAt := Some 20\<rparr>"

definition jobR1 :: job where
  "jobR1 = jobL1\<lparr>status := Pending, retryCount := 1, workerId := None, leaseExpiresAt := None,
                  errorMessage := Some ''boom'', createdAt := 30020\<rparr>"

definition jobL2 :: job where
  "jobL2 = jobR1\<lparr>status := Running, workerId := Some ''w1'', leaseExpiresAt := Some 300030,
                  startedAt := Some 30\<rparr>"

definition jobR2 :: job where
  "jobR2 = jobL2\<lparr>status := Pending, retryCount := 2, workerId := None, leaseExpiresAt := None,
                  errorMessage := Some ''boom'', createdAt := 60040\<rparr>"

definition jobL3 :: job where
  "jobL3 = jobR2\<lparr>status := Running, workerId := Some ''w1'', leaseExpiresAt := Some 300050,
                  startedAt := Some 50\<rparr>"

definition jobR3 :: job where
  "jobR3 = jobL3\<lparr>status := Pending, retryCount := 3, workerId := None, leaseExpiresAt := None,
                  errorMessage := Some ''boom'', createdAt := 120060\<rparr>"

definition jobL4 :: job where
  "jobL4 = jobR3\<lparr>status := Running, workerId := Some ''w1'', leaseExpiresAt := Some 300070,
                  startedAt := Some 70\<rparr>"

text \<open>The fourth failure, at 80: the job is dead-lettered.\<close>

definition jobF4 :: job where
  "jobF4 = jobL4\<lparr>status := Failed, errorMessage := Some ''boom''\<rparr>"

definition dl4 :: dlqEntry where
  "dl4 = \<lparr>dlqId = ''d1'', jobId = ''j1'', dlqPayload = payloadX, finalError = ''boom'',
          failedAt = 80, dlqTraceId = ''t1''\<rparr>"

text \<open>
  Or else: w1 is still at work when its lease expires; worker w2 takes the job over at
  400000 and fails at 400010, and w1 succeeds at 400020.
\<close>

definition jobS5 :: job where
  "jobS5 = jobL4\<lparr>workerId := Some ''w2'', leaseExpiresAt := Some 700000\<rparr>"

definition jobF5 :: job where
  "jobF5 = jobS5\<lparr>status := Failed, errorMessage := Some ''late''\<rparr>"

definition dl5 :: dlqEntry where
  "dl5 = \<lparr>dlqId = ''d1'', jobId = ''j1'', dlqPayload = payloadX, finalError = ''late'',
          failedAt = 400010, dlqTraceId = ''t1''\<rparr>"

definition jobC5 :: job where
  "jobC5 = jobF5\<lparr>status := Completed, completedAt := Some 400020\<rparr>"

text \<open>A second pending job, and the jobs of two tenants for the metrics.\<close>

definition job2 :: job where
  "job2 = \<lparr>jid = ''j2'', tenantId = ''B'', status = Pending, payload = payloadX,
           idempotencyKey = None, retryCount = 0, maxRetries = 3,
           leaseExpiresAt = None, workerId = None, createdAt = 5000,
           startedAt = None, completedAt = None, errorMessage = None, traceId = ''t2''\<rparr>"




section \<open>Properties of the store and of the single calls\<close>

lemma updateRow_None: "updateRow i f js = None \<longleftrightarrow> i \<notin> set (map jid js)"
  by (induction js) (auto split: option.splits)

lemma updateRow_map:
  "distinct (map jid js) \<Longrightarrow> updateRow i f js = Some (u, js') \<Longrightarrow>
   (\<exists>a\<in>set js. jid a = i \<and> u = f a) \<and> js' = map (\<lambda>r. if jid r = i then f r else r) js"
proof (induction js arbitrary: js')
  case Nil
  then show ?case by simp
next
  case (Cons j js)
  show ?case
  proof (cases "jid j = i")
    case True
    with Cons.prems have "i \<notin> jid ` set js" by auto
    then have "map (\<lambda>r. if jid r = i then f r else r) js = js"
      by (induction js) auto
    with True Cons.prems show ?thesis by auto
  next
    case False
    with Cons.prems obtain js0 where r: "updateRow i f js = Some (u, js0)" and e: "js' = j # js0"
      by (auto split: option.splits)
    from Cons.IH [OF _ r] Cons.prems(1) e False show ?thesis by auto
  qed
qed

lemma jobUpdate_Inr:
  assumes "distinct (map jid (jobs st))" and "jobUpdate i f st = Inr (u, st')"
  shows "(\<exists>a\<in>set (jobs st). jid a = i \<and> u = f a) \<and> i \<in> set (map jid (jobs st)) \<and>
         st' = st\<lparr>jobs := map (\<lambda>r. if jid r = i then f r else r) (jobs st)\<rparr>"
proof -
  from assms(2) obtain js where r: "updateRow i f (jobs st) = Some (u, js)" and e: "st' = st\<lparr>jobs := js\<rparr>"
    by (auto simp: jobUpdate_def split: option.splits)
  from r have "i \<in> set (map jid (jobs st))"
    using updateRow_None [of i f "jobs st"] by simp
  with updateRow_map [OF assms(1) r] e show ?thesis by simp
qed

lemma jobUpdate_ok:
  assumes "a \<in> set (jobs st)" "distinct (map jid (jobs st))"
  shows "jobUpdate (jid a) f st = Inr (f a, st\<lparr>jobs := map (\<lambda>r. if jid r = jid a then f r else r) (jobs st)\<rparr>)"
proof -
  have "updateRow (jid a) f (jobs st) \<noteq> None" using assms(1) by (simp add: updateRow_None)
  then obtain u js where r: "updateRow (jid a) f (jobs st) = Some (u, js)" by auto
  from updateRow_map [OF assms(2) r] obtain b where b: "b \<in> set (jobs st)" "jid b = jid a" "u = f b"
    and js: "js = map (\<lambda>r. if jid r = jid a then f r else r) (jobs st)" by auto
  from b assms have "b = a" by (meson distinct_map inj_onD)
  with r b js show ?thesis by (simp add: jobUpdate_def)
qed

lemma firstAsc_None: "firstAsc js = None \<longleftrightarrow> js = []"
  by (induction js) (auto split: option.splits)

lemma firstAsc_min:
  "firstAsc js = Some a \<Longrightarrow> a \<in> set js \<and> (\<forall>k\<in>set js. createdAt a \<le> createdAt k)"
  by (induction js arbitrary: a) (fastforce split: option.splits if_splits simp: firstAsc_None)+

lemma findFirstAvailable_None:
  "findFirstAvailable now st = None \<longleftrightarrow> \<not> (\<exists>j\<in>set (jobs st). available now j)"
  by (auto simp: findFirstAvailable_def firstAsc_None filter_empty_conv)

lemma findFirstAvailable_Some:
  "findFirstAvailable now st = Some a \<Longrightarrow>
   a \<in> set (jobs st) \<and> available now a \<and>
   (\<forall>k\<in>set (jobs st). available now k \<longrightarrow> createdAt a \<le> createdAt k)"
  unfolding findFirstAvailable_def by (drule firstAsc_min) auto

lemma acquireLease_Some:
  assumes d: "distinct (map jid (jobs st))" and f: "findFirstAvailable now st = Some a"
  shows "acquireLease w now st =
     (Some (a\<lparr>status := Running, workerId := Some w, leaseExpiresAt := Some (now + 300000),
              startedAt := (if status a = Pending then Some now else startedAt a)\<rparr>),
      st\<lparr>jobs := map (\<lambda>r. if jid r = jid a
                then r\<lparr>status := Running, workerId := Some w, leaseExpiresAt := Some (now + 300000),
                       startedAt := (if status a = Pending then Some now else startedAt a)\<rparr>
                else r) (jobs st)\<rparr>)"
proof -
  from findFirstAvailable_Some [OF f] have m: "a \<in> set (jobs st)" by simp
  show ?thesis
    by (simp add: acquireLease_def f jobUpdate_ok [OF m d] Let_def)
qed

lemma jid_ident: "jid j = fst (ident j)"
  by (simp add: ident_def)

lemma map_jid_ident: "map jid js = map fst (map ident js)"
  by (simp add: ident_def)

lemma map_upd_ident:
  "(\<And>r. ident (f r) = ident r) \<Longrightarrow>
   map ident (map (\<lambda>r. if jid r = i then f r else r) js) = map ident js"
  by (induction js) auto

lemma submitJob_effect:
  assumes "submitJob tenant p key trace newId now st = Inr (j, st')"
  shows "st' = st \<or>
         (st' = st\<lparr>jobs := jobs st @ [j]\<rparr> \<and> jid j \<notin> set (map jid (jobs st)) \<and>
          retryCount j = 0 \<and> status j = Pending \<and> maxRetries j = 3 \<and>
          leaseExpiresAt j = None \<and> workerId j = None \<and> startedAt j = None \<and>
          idempotencyKey j = key \<and>
          (key \<noteq> None \<longrightarrow> key \<notin> set (map idempotencyKey (jobs st))))"
  using assms
  by (auto simp: submitJob_def jobCreate_def Let_def split: option.splits if_splits)

lemma acquireLease_effect:
  assumes "distinct (map jid (jobs st))" and "acquireLease w now st = (Some u, st')"
  shows "\<exists>a\<in>set (jobs st). available now a \<and>
           u = a\<lparr>status := Running, workerId := Some w, leaseExpiresAt := Some (now + 300000),
                 startedAt := (if status a = Pending then Some now else startedAt a)\<rparr> \<and>
           st' = st\<lparr>jobs := map (\<lambda>r. if jid r = jid a
                then r\<lparr>status := Running, workerId := Some w, leaseExpiresAt := Some (now + 300000),
                       startedAt := (if status a = Pending then Some now else startedAt a)\<rparr>
                else r) (jobs st)\<rparr>"
proof (cases "findFirstAvailable now st")
  case None
  with assms(2) show ?thesis by (simp add: acquireLease_def)
next
  case (Some a)
  from findFirstAvailable_Some [OF Some] acquireLease_Some [OF assms(1) Some, of w] assms(2)
  show ?thesis by (intro bexI [of _ a]) simp_all
qed

lemma acknowledgeJob_effect:
  assumes "distinct (map jid (jobs st))" and "acknowledgeJob i now st = Inr st'"
  shows "i \<in> set (map jid (jobs st)) \<and>
         st' = st\<lparr>jobs := map (\<lambda>r. if jid r = i then r\<lparr>status := Completed, completedAt := Some now\<rparr>
                                   else r) (jobs st)\<rparr>"
proof -
  from assms(2) obtain u where "jobUpdate i (\<lambda>j. j\<lparr>status := Completed, completedAt := Some now\<rparr>) st = Inr (u, st')"
    by (auto simp: acknowledgeJob_def split: sum.splits)
  from jobUpdate_Inr [OF assms(1) this] show ?thesis by simp
qed

lemma retry_effect:
  assumes "distinct (map jid (jobs st))" and "retryCount h < maxRetries h"
    and "retryJob h m now newId st = Inr st'"
  shows "jid h \<in> set (map jid (jobs st)) \<and>
         st' = st\<lparr>jobs := map (\<lambda>r. if jid r = jid h
                  then r\<lparr>status := Pending, retryCount := retryCount h + 1, workerId := None,
                         leaseExpiresAt := None, errorMessage := Some m,
                         createdAt := now + backoffMs (retryCount h)\<rparr>
                  else r) (jobs st)\<rparr>"
proof -
  from assms(2,3) obtain u where
    "jobUpdate (jid h) (\<lambda>r. r\<lparr>status := Pending, retryCount := retryCount h + 1, workerId := None,
                         leaseExpiresAt := None, errorMessage := Some m,
                         createdAt := now + backoffMs (retryCount h)\<rparr>) st = Inr (u, st')"
    by (auto simp: retryJob_def split: sum.splits)
  from jobUpdate_Inr [OF assms(1) this] show ?thesis by simp
qed

lemma deadLetter_effect:
  assumes "distinct (map jid (jobs st))" and "moveToDeadLetterQueue h m now newId st = Inr st'"
  shows "jid h \<in> set (map jid (jobs st)) \<and> jid h \<notin> set (map jobId (dlq st)) \<and>
         newId \<notin> set (map dlqId (dlq st)) \<and>
         st' = \<lparr>jobs = map (\<lambda>r. if jid r = jid h then r\<lparr>status := Failed, errorMessage := Some m\<rparr>
                                 else r) (jobs st),
               dlq = dlq st @ [\<lparr>dlqId = newId, jobId = jid h, dlqPayload = payload h,
                                finalError = m, failedAt = now, dlqTraceId = traceId h\<rparr>]\<rparr>"
proof -
  from assms(2) obtain st1 u where
    c: "dlqCreate newId (jid h) (if payload h = JNull then JNull else payload h) m (traceId h) now st = Inr st1"
    and up: "jobUpdate (jid h) (\<lambda>r. r\<lparr>status := Failed, errorMessage := Some m\<rparr>) st1 = Inr (u, st')"
    by (auto simp: moveToDeadLetterQueue_def split: sum.splits)
  from c have st1: "st1 = st\<lparr>dlq := dlq st @ [\<lparr>dlqId = newId, jobId = jid h, dlqPayload = payload h,
                                finalError = m, failedAt = now, dlqTraceId = traceId h\<rparr>]\<rparr>"
    and f: "jid h \<notin> set (map jobId (dlq st))" "newId \<notin> set (map dlqId (dlq st))"
      "jid h \<in> set (map jid (jobs st))"
    by (auto simp: dlqCreate_def split: if_splits)
  from assms(1) st1 have d1: "distinct (map jid (jobs st1))" by simp
  from jobUpdate_Inr [OF d1 up] st1 f show ?thesis by simp
qed

lemma inv_sys0: "inv sys0"
  by (simp add: inv_def sys0_def)

lemma ident_row_unique:
  assumes "distinct (map jid js)" "r \<in> set js" "ident h \<in> set (map ident js)" "jid r = jid h"
  shows "ident r = ident h"
proof -
  from assms(3) obtain r0 where r0: "r0 \<in> set js" "ident r0 = ident h" by auto
  then have "jid r0 = jid r" using assms(4) by (simp add: ident_def)
  with assms(1,2) r0(1) have "r0 = r" by (meson distinct_map inj_onD)
  with r0 show ?thesis by simp
qed

lemma inv_update:
  assumes i: "inv s"
    and f: "\<And>r. ident (f r) = ident r"
    and b: "\<And>r. r \<in> set (jobs (sysStore s)) \<Longrightarrow> jid r = i \<Longrightarrow> retryCount (f r) \<le> maxRetries (f r)"
    and j: "jobs st' = map (\<lambda>r. if jid r = i then f r else r) (jobs (sysStore s))"
    and d: "dlq st' = dlq (sysStore s)"
    and h: "set hs \<subseteq> set (sysHeld s)"
  shows "inv \<lparr>sysStore = st', sysClock = c, sysHeld = hs\<rparr>"
proof -
  have m: "map ident (jobs st') = map ident (jobs (sysStore s))"
    unfolding j by (rule map_upd_ident) (rule f)
  have dj: "distinct (map jid (jobs st'))"
    using i by (simp add: map_jid_ident m inv_def del: map_map)
  have rb: "\<forall>r\<in>set (jobs st'). retryCount r \<le> maxRetries r"
    using i b by (auto simp: j inv_def)
  show ?thesis
    using i h dj rb by (auto simp: inv_def m d)
qed

lemma step_inv:
  assumes "inv s" and "step timely s s'"
  shows "inv s'"
  using assms(2)
proof (cases rule: step.cases)
  case (submit now tenant p key trace newId j st')
  from submitJob_effect [OF submit(3)] show ?thesis
  proof
    assume "st' = sysStore s"
    with assms(1) submit(1) show ?thesis by (simp add: inv_def)
  next
    assume a: "st' = sysStore s\<lparr>jobs := jobs (sysStore s) @ [j]\<rparr> \<and> jid j \<notin> set (map jid (jobs (sysStore s))) \<and>
          retryCount j = 0 \<and> status j = Pending \<and> maxRetries j = 3 \<and>
          leaseExpiresAt j = None \<and> workerId j = None \<and> startedAt j = None \<and>
          idempotencyKey j = key \<and>
          (key \<noteq> None \<longrightarrow> key \<notin> set (map idempotencyKey (jobs (sysStore s))))"
    with assms(1) submit(1) show ?thesis by (auto simp: inv_def) blast+
  qed
next
  case (lease now w j st')
  from assms(1) have d: "distinct (map jid (jobs (sysStore s)))" by (simp add: inv_def)
  from acquireLease_effect [OF d lease(3)] obtain a where
    a: "a \<in> set (jobs (sysStore s))" and
    u: "j = a\<lparr>status := Running, workerId := Some w, leaseExpiresAt := Some (now + 300000),
                 startedAt := (if status a = Pending then Some now else startedAt a)\<rparr>" and
    st: "st' = sysStore s\<lparr>jobs := map (\<lambda>r. if jid r = jid a
                then r\<lparr>status := Running, workerId := Some w, leaseExpiresAt := Some (now + 300000),
                       startedAt := (if status a = Pending then Some now else startedAt a)\<rparr>
                else r) (jobs (sysStore s))\<rparr>"
    by blast
  have "inv \<lparr>sysStore = st', sysClock = now, sysHeld = sysHeld s\<rparr>"
    by (rule inv_update [OF assms(1), where i = "jid a" and
          f = "\<lambda>r. r\<lparr>status := Running, workerId := Some w, leaseExpiresAt := Some (now + 300000),
                       startedAt := (if status a = Pending then Some now else startedAt a)\<rparr>"])
       (use assms(1) in \<open>auto simp: ident_def st inv_def\<close>)
  moreover have "ident j \<in> set (map ident (jobs st'))"
  proof -
    have "ident j = ident a" by (simp add: u ident_def)
    moreover have "map ident (jobs st') = map ident (jobs (sysStore s))"
      unfolding st by (simp add: ident_def cong: map_cong)
    ultimately show ?thesis using a by auto
  qed
  ultimately show ?thesis unfolding lease(1) by (simp add: inv_def)
next
  case (finish now h outcome newId st')
  from assms(1) have d: "distinct (map jid (jobs (sysStore s)))" by (simp add: inv_def)
  from assms(1) finish(3) have hi: "ident h \<in> set (map ident (jobs (sysStore s)))"
    by (simp add: inv_def)
  show ?thesis
  proof (cases outcome)
    case None
    with finish(5) have "acknowledgeJob (jid h) now (sysStore s) = Inr st'"
      by (simp add: processJob_def)
    from acknowledgeJob_effect [OF d this] show ?thesis unfolding finish(1)
      by (intro inv_update [OF assms(1), where i = "jid h" and
            f = "\<lambda>r. r\<lparr>status := Completed, completedAt := Some now\<rparr>"])
         (use assms(1) in \<open>auto simp: ident_def inv_def\<close>)
  next
    case (Some m)
    with finish(5) have r: "retryJob h m now newId (sysStore s) = Inr st'"
      by (simp add: processJob_def)
    show ?thesis
    proof (cases "retryCount h < maxRetries h")
      case True
      have bound: "retryCount h + 1 \<le> maxRetries r"
        if "r \<in> set (jobs (sysStore s))" "jid r = jid h" for r
      proof -
        from ident_row_unique [OF d that(1) hi that(2)] have "maxRetries r = maxRetries h"
          by (simp add: ident_def)
        with True show ?thesis by simp
      qed
      from retry_effect [OF d True r] show ?thesis unfolding finish(1)
        by (intro inv_update [OF assms(1), where i = "jid h" and
              f = "\<lambda>r. r\<lparr>status := Pending, retryCount := retryCount h + 1, workerId := None,
                         leaseExpiresAt := None, errorMessage := Some m,
                         createdAt := now + backoffMs (retryCount h)\<rparr>"])
           (use bound in \<open>auto simp: ident_def\<close>)
    next
      case False
      with r have "moveToDeadLetterQueue h m now newId (sysStore s) = Inr st'"
        by (simp add: retryJob_def)
      note e = deadLetter_effect [OF d this]
      let ?mid = "\<lparr>jobs = jobs st', dlq = dlq (sysStore s)\<rparr>"
      have "inv \<lparr>sysStore = ?mid, sysClock = now, sysHeld = removeAll h (sysHeld s)\<rparr>"
        by (intro inv_update [OF assms(1), where i = "jid h" and
              f = "\<lambda>r. r\<lparr>status := Failed, errorMessage := Some m\<rparr>"])
           (use assms(1) e in \<open>auto simp: ident_def inv_def\<close>)
      moreover have "map ident (jobs st') = map ident (jobs (sysStore s))"
        using e by (simp add: ident_def cong: map_cong)
      moreover have "dlq st' = dlq (sysStore s) @ [\<lparr>dlqId = newId, jobId = jid h, dlqPayload = payload h,
                                finalError = m, failedAt = now, dlqTraceId = traceId h\<rparr>]"
        using e by simp
      ultimately show ?thesis unfolding finish(1) using hi
        by (auto simp: inv_def ident_def)
    qed
  qed
next
  case (crash h)
  with assms(1) show ?thesis by (auto simp: inv_def)
next
  case (tick now)
  with assms(1) show ?thesis by (simp add: inv_def)
qed

lemma reachable_inv: "reachable timely s \<Longrightarrow> inv s"
  by (induction rule: reachable.induct) (auto intro: inv_sys0 step_inv)



lemma same_row: "distinct (map jid js) \<Longrightarrow> r \<in> set js \<Longrightarrow> r' \<in> set js \<Longrightarrow> jid r = jid r' \<Longrightarrow> r = r'"
  by (meson distinct_map inj_onD)







lemma rate_deny_full:
  "fst (checkRateLimit None ''A'' 2000 ''0.5'' redisFull) = False"
  by (simp add: checkRateLimit_def zRemRangeByScore_def zCard_def redisFull_def Let_def)



lemma jobUpdate_by_id:
  assumes "i \<in> set (map jid (jobs st))" "distinct (map jid (jobs st))"
  shows "\<exists>u. jobUpdate i f st = Inr (u, st\<lparr>jobs := map (\<lambda>r. if jid r = i then f r else r) (jobs st)\<rparr>)"
proof -
  from assms(1) obtain a where a: "a \<in> set (jobs st)" "jid a = i" by auto
  from jobUpdate_ok [OF a(1) assms(2), of f] a(2) show ?thesis by auto
qed


lemma updateRow_frame:
  "(\<And>r. g (f r) = g r) \<Longrightarrow> updateRow i f js = Some (u, js') \<Longrightarrow> map g js' = map g js"
  by (induction js arbitrary: js') (auto split: if_splits option.splits)

lemma jobUpdate_frame:
  "(\<And>r. g (f r) = g r) \<Longrightarrow> jobUpdate i f st = Inr (u, st') \<Longrightarrow> map g (jobs st') = map g (jobs st)"
  by (auto simp: jobUpdate_def split: option.splits dest: updateRow_frame)

lemma acknowledgeJob_startedAt:
  "acknowledgeJob i now st = Inr st' \<Longrightarrow> map startedAt (jobs st') = map startedAt (jobs st)"
  by (auto simp: acknowledgeJob_def split: sum.splits
        dest!: jobUpdate_frame [where g = startedAt, rotated])

lemma retryJob_startedAt:
  "retryJob j message now newId st = Inr st' \<Longrightarrow> map startedAt (jobs st') = map startedAt (jobs st)"
  by (auto simp: retryJob_def moveToDeadLetterQueue_def dlqCreate_def split: sum.splits if_splits
        dest!: jobUpdate_frame [where g = startedAt, rotated])

lemma acquireLease_None: "acquireLease w now st = (None, st') \<Longrightarrow> st' = st"
  by (auto simp: acquireLease_def Let_def split: option.splits sum.splits)

lemma acquireLease_row:
  assumes d: "distinct (map jid (jobs st))" and l: "acquireLease w now st = (Some u, st')"
  shows "\<exists>a\<in>set (jobs st). available now a \<and> jid u = jid a \<and>
           startedAt u = (if status a = Pending then Some now else startedAt a) \<and>
           jobs st' = map (\<lambda>r. if jid r = jid a then u else r) (jobs st)"
proof -
  let ?F = "\<lambda>a r. r\<lparr>status := Running, workerId := Some w, leaseExpiresAt := Some (now + 300000),
                       startedAt := (if status a = Pending then Some now else startedAt a)\<rparr>"
  from acquireLease_effect [OF d l] obtain a where
    a: "a \<in> set (jobs st)" "available now a" and u: "u = ?F a a"
    and st: "st' = st\<lparr>jobs := map (\<lambda>r. if jid r = jid a then ?F a r else r) (jobs st)\<rparr>"
    by blast
  have "map (\<lambda>r. if jid r = jid a then ?F a r else r) (jobs st) =
        map (\<lambda>r. if jid r = jid a then u else r) (jobs st)"
  proof (rule map_cong [OF refl])
    fix r assume r: "r \<in> set (jobs st)"
    show "(if jid r = jid a then ?F a r else r) = (if jid r = jid a then u else r)"
    proof (cases "jid r = jid a")
      case True
      from same_row [OF d r a(1) True] u show ?thesis by simp
    next
      case False
      then show ?thesis by simp
    qed
  qed
  with st have "jobs st' = map (\<lambda>r. if jid r = jid a then u else r) (jobs st)" by simp
  moreover have "jid u = jid a" "startedAt u = (if status a = Pending then Some now else startedAt a)"
    by (simp_all add: u)
  ultimately show ?thesis using a by blast
qed

section \<open>Properties of every run\<close>

lemma reachable_retry_bound:
  "reachable timely s \<Longrightarrow> r \<in> set (jobs (sysStore s)) \<Longrightarrow> retryCount r \<le> maxRetries r"
  using reachable_inv [of timely s] by (simp add: inv_def)




section \<open>The life of one job, call by call\<close>

lemmas life_defs =
  job1_def jobL1_def jobA1_def jobR1_def jobL2_def jobR2_def jobL3_def jobR3_def jobL4_def
  jobF4_def dl4_def jobS5_def jobF5_def dl5_def jobC5_def

lemmas call_defs =
  submitJob_def jobCreate_def acquireLease_def findFirstAvailable_def available_def
  jobUpdate_def processJob_def acknowledgeJob_def retryJob_def moveToDeadLetterQueue_def
  dlqCreate_def backoffMs_def Let_def

lemma ev_submit1:
  "submitJob ''A'' payloadX None ''t1'' ''j1'' 0 \<lparr>jobs = [], dlq = []\<rparr> =
     Inr (job1, \<lparr>jobs = [job1], dlq = []\<rparr>)"
  by (simp add: call_defs life_defs)

lemma ev_lease1:
  "acquireLease ''w1'' 10 \<lparr>jobs = [job1], dlq = []\<rparr> = (Some jobL1, \<lparr>jobs = [jobL1], dlq = []\<rparr>)"
  by (simp add: call_defs life_defs)

lemma ev_ack1:
  "acknowledgeJob ''j1'' 20 \<lparr>jobs = [jobL1], dlq = []\<rparr> = Inr \<lparr>jobs = [jobA1], dlq = []\<rparr>"
  by (simp add: call_defs life_defs)

lemma ev_fail1:
  "processJob jobL1 (Some ''boom'') 20 ''d1'' \<lparr>jobs = [jobL1], dlq = []\<rparr> = Inr \<lparr>jobs = [jobR1], dlq = []\<rparr>"
  by (simp add: call_defs life_defs)

lemma ev_lease2:
  "acquireLease ''w1'' 30 \<lparr>jobs = [jobR1], dlq = []\<rparr> = (Some jobL2, \<lparr>jobs = [jobL2], dlq = []\<rparr>)"
  by (simp add: call_defs life_defs)

lemma ev_fail2:
  "processJob jobL2 (Some ''boom'') 40 ''d1'' \<lparr>jobs = [jobL2], dlq = []\<rparr> = Inr \<lparr>jobs = [jobR2], dlq = []\<rparr>"
  by (simp add: call_defs life_defs)

lemma ev_lease3:
  "acquireLease ''w1'' 50 \<lparr>jobs = [jobR2], dlq = []\<rparr> = (Some jobL3, \<lparr>jobs = [jobL3], dlq = []\<rparr>)"
  by (simp add: call_defs life_defs)

lemma ev_fail3:
  "processJob jobL3 (Some ''boom'') 60 ''d1'' \<lparr>jobs = [jobL3], dlq = []\<rparr> = Inr \<lparr>jobs = [jobR3], dlq = []\<rparr>"
  by (simp add: call_defs life_defs)


lemma ev_fail4:
  "processJob jobL4 (Some ''boom'') 80 ''d1'' \<lparr>jobs = [jobL4], dlq = []\<rparr> = Inr \<lparr>jobs = [jobF4], dlq = [dl4]\<rparr>"
  by (simp add: call_defs life_defs)

lemma ev_steal5:
  "acquireLease ''w2'' 400000 \<lparr>jobs = [jobL4], dlq = []\<rparr> = (Some jobS5, \<lparr>jobs = [jobS5], dlq = []\<rparr>)"
  by (simp add: call_defs life_defs)



lemma reach_submit:
  "reachable b s \<Longrightarrow> sysClock s \<le> now \<Longrightarrow>
   submitJob tenant p key trace newId now (sysStore s) = Inr (j, st') \<Longrightarrow>
   reachable b \<lparr>sysStore = st', sysClock = now, sysHeld = sysHeld s\<rparr>"
proof -
  assume r: "reachable b s" and c: "sysClock s \<le> now"
    and e: "submitJob tenant p key trace newId now (sysStore s) = Inr (j, st')"
  have "s\<lparr>sysStore := st', sysClock := now\<rparr> = \<lparr>sysStore = st', sysClock = now, sysHeld = sysHeld s\<rparr>"
    by (cases s) simp
  with reachable.after [OF r step.submit [OF c e]] show ?thesis by simp
qed

lemma reach_lease:
  "reachable b s \<Longrightarrow> sysClock s \<le> now \<Longrightarrow>
   acquireLease w now (sysStore s) = (Some j, st') \<Longrightarrow>
   reachable b \<lparr>sysStore = st', sysClock = now, sysHeld = j # sysHeld s\<rparr>"
  by (rule reachable.after [OF _ step.lease])

lemma reach_finish:
  "reachable b s \<Longrightarrow> sysClock s \<le> now \<Longrightarrow> h \<in> set (sysHeld s) \<Longrightarrow>
   (b \<longrightarrow> leaseValid now h) \<Longrightarrow>
   processJob h outcome now newId (sysStore s) = Inr st' \<Longrightarrow>
   reachable b \<lparr>sysStore = st', sysClock = now, sysHeld = removeAll h (sysHeld s)\<rparr>"
  by (rule reachable.after [OF _ step.finish])

lemma lease_valid_life:
  "leaseValid 20 jobL1" "leaseValid 40 jobL2" "leaseValid 60 jobL3" "leaseValid 80 jobL4"
  by (simp_all add: leaseValid_def life_defs)

lemma reach_pending3:
  "reachable b \<lparr>sysStore = \<lparr>jobs = [jobR3], dlq = []\<rparr>, sysClock = 60, sysHeld = []\<rparr>"
proof -
  have 1: "reachable b \<lparr>sysStore = \<lparr>jobs = [job1], dlq = []\<rparr>, sysClock = 0, sysHeld = []\<rparr>"
    using reach_submit [OF reachable.initial, of 0 "''A''" payloadX None "''t1''" "''j1''" job1 _ b]
    by (simp add: sys0_def ev_submit1)
  have 2: "reachable b \<lparr>sysStore = \<lparr>jobs = [jobL1], dlq = []\<rparr>, sysClock = 10, sysHeld = [jobL1]\<rparr>"
    using reach_lease [OF 1, of 10 "''w1''" jobL1] by (simp add: ev_lease1)
  have 3: "reachable b \<lparr>sysStore = \<lparr>jobs = [jobR1], dlq = []\<rparr>, sysClock = 20, sysHeld = []\<rparr>"
    using reach_finish [OF 2, of 20 jobL1 "Some ''boom''" "''d1''"]
    by (simp add: ev_fail1 lease_valid_life)
  have 4: "reachable b \<lparr>sysStore = \<lparr>jobs = [jobL2], dlq = []\<rparr>, sysClock = 30, sysHeld = [jobL2]\<rparr>"
    using reach_lease [OF 3, of 30 "''w1''" jobL2] by (simp add: ev_lease2)
  have 5: "reachable b \<lparr>sysStore = \<lparr>jobs = [jobR2], dlq = []\<rparr>, sysClock = 40, sysHeld = []\<rparr>"
    using reach_finish [OF 4, of 40 jobL2 "Some ''boom''" "''d1''"]
    by (simp add: ev_fail2 lease_valid_life)
  have 6: "reachable b \<lparr>sysStore = \<lparr>jobs = [jobL3], dlq = []\<rparr>, sysClock = 50, sysHeld = [jobL3]\<rparr>"
    using reach_lease [OF 5, of 50 "''w1''" jobL3] by (simp add: ev_lease3)
  show ?thesis
    using reach_finish [OF 6, of 60 jobL3 "Some ''boom''" "''d1''"]
    by (simp add: ev_fail3 lease_valid_life)
qed




section \<open>Idempotent resubmission\<close>




section \<open>Lease acquisition\<close>

text \<open>
  C2. In a store with unique ids, \<open>acquireLease\<close> answers null and changes nothing when no
  job is pending or running with an expired lease. Otherwise it takes such a job with the
  smallest \<open>created_at\<close> and sets it running, with the worker, a lease of five minutes from
  now and its retry count as it was; no other row changes. A pending job whose \<open>created_at\<close>
  lies after \<open>now\<close> is available all the same, so a lease is then granted.
\<close>

theorem acquireLease_fifo:
  assumes "distinct (map jid (jobs st))"
  shows "(if \<exists>j\<in>set (jobs st). available now j
          then \<exists>a\<in>set (jobs st).
                 available now a \<and>
                 (\<forall>k\<in>set (jobs st). available now k \<longrightarrow> createdAt a \<le> createdAt k) \<and>
                 acquireLease w now st =
                   (Some (a\<lparr>status := Running, workerId := Some w,
                            leaseExpiresAt := Some (now + 5 * 60 * 1000),
                            startedAt := (if status a = Pending then Some now else startedAt a)\<rparr>),
                    st\<lparr>jobs := map (\<lambda>r. if jid r = jid a
                              then r\<lparr>status := Running, workerId := Some w,
                                     leaseExpiresAt := Some (now + 5 * 60 * 1000),
                                     startedAt := (if status a = Pending then Some now else startedAt a)\<rparr>
                              else r) (jobs st)\<rparr>) \<and>
                 retryCount (the (fst (acquireLease w now st))) = retryCount a
          else acquireLease w now st = (None, st)) \<and>
         (\<forall>j\<in>set (jobs st). status j = Pending \<and> now < createdAt j \<longrightarrow>
             available now j \<and> fst (acquireLease w now st) \<noteq> None)"
proof (cases "findFirstAvailable now st")
  case None
  then have n: "\<not> (\<exists>j\<in>set (jobs st). available now j)"
    by (simp add: findFirstAvailable_None)
  have a: "acquireLease w now st = (None, st)"
    by (simp add: acquireLease_def None)
  have "\<forall>j\<in>set (jobs st). \<not> (status j = Pending \<and> now < createdAt j)"
    using n by (auto simp: available_def)
  with n a show ?thesis by simp
next
  case (Some a)
  note m = findFirstAvailable_Some [OF Some]
  note eq = acquireLease_Some [OF assms Some, of w]
  have ex: "\<exists>j\<in>set (jobs st). available now j" using m by blast
  have p: "\<forall>j\<in>set (jobs st). status j = Pending \<and> now < createdAt j \<longrightarrow>
             available now j \<and> fst (acquireLease w now st) \<noteq> None"
    by (simp add: eq available_def)
  have r: "retryCount (the (fst (acquireLease w now st))) = retryCount a"
    by (simp add: eq)
  have five: "now + 5 * 60 * 1000 = now + 300000" by simp
  have "available now a \<and>
        (\<forall>k\<in>set (jobs st). available now k \<longrightarrow> createdAt a \<le> createdAt k) \<and>
        acquireLease w now st =
          (Some (a\<lparr>status := Running, workerId := Some w,
                   leaseExpiresAt := Some (now + 5 * 60 * 1000),
                   startedAt := (if status a = Pending then Some now else startedAt a)\<rparr>),
           st\<lparr>jobs := map (\<lambda>r. if jid r = jid a
                     then r\<lparr>status := Running, workerId := Some w,
                            leaseExpiresAt := Some (now + 5 * 60 * 1000),
                            startedAt := (if status a = Pending then Some now else startedAt a)\<rparr>
                     else r) (jobs st)\<rparr>) \<and>
        retryCount (the (fst (acquireLease w now st))) = retryCount a"
    unfolding five using m eq r by blast
  with m have "\<exists>a\<in>set (jobs st).
        available now a \<and>
        (\<forall>k\<in>set (jobs st). available now k \<longrightarrow> createdAt a \<le> createdAt k) \<and>
        acquireLease w now st =
          (Some (a\<lparr>status := Running, workerId := Some w,
                   leaseExpiresAt := Some (now + 5 * 60 * 1000),
                   startedAt := (if status a = Pending then Some now else startedAt a)\<rparr>),
           st\<lparr>jobs := map (\<lambda>r. if jid r = jid a
                     then r\<lparr>status := Running, workerId := Some w,
                            leaseExpiresAt := Some (now + 5 * 60 * 1000),
                            startedAt := (if status a = Pending then Some now else startedAt a)\<rparr>
                     else r) (jobs st)\<rparr>) \<and>
        retryCount (the (fst (acquireLease w now st))) = retryCount a"
    by blast
  with ex p show ?thesis by (simp only: if_True simp_thms)
qed

theorem acquireLease_fifo_witness:
  "fst (acquireLease ''w2'' 25 \<lparr>jobs = [jobR1, job2], dlq = []\<rparr>) =
     Some (job2\<lparr>status := Running, workerId := Some ''w2'', leaseExpiresAt := Some 300025,
                startedAt := Some 25\<rparr>) \<and>
   status jobR1 = Pending \<and> createdAt jobR1 = 30020 \<and> retryCount jobR1 = 1 \<and>
   fst (acquireLease ''w2'' 25 \<lparr>jobs = [jobR1], dlq = []\<rparr>) =
     Some (jobR1\<lparr>status := Running, workerId := Some ''w2'', leaseExpiresAt := Some 300025,
                 startedAt := Some 25\<rparr>) \<and>
   retryCount (the (fst (acquireLease ''w2'' 25 \<lparr>jobs = [jobR1], dlq = []\<rparr>))) = 1 \<and>
   acquireLease ''w2'' 25 \<lparr>jobs = [jobA1], dlq = []\<rparr> = (None, \<lparr>jobs = [jobA1], dlq = []\<rparr>)"
proof -
  have d: "distinct (map jid (jobs \<lparr>jobs = [jobR1], dlq = []\<rparr>))"
    "distinct (map jid (jobs \<lparr>jobs = [jobA1], dlq = []\<rparr>))" by simp_all
  have a: "\<not> (\<exists>j\<in>set (jobs \<lparr>jobs = [jobA1], dlq = []\<rparr>). available 25 j)"
    by (simp add: available_def life_defs)
  have r: "retryCount jobR1 = 1" by (simp add: life_defs)
  from acquireLease_fifo [OF d(2), of 25 "''w2''"] a
  have n: "acquireLease ''w2'' 25 \<lparr>jobs = [jobA1], dlq = []\<rparr> = (None, \<lparr>jobs = [jobA1], dlq = []\<rparr>)"
    by simp
  from acquireLease_fifo [OF d(1), of 25 "''w2''"] r
  have c: "retryCount (the (fst (acquireLease ''w2'' 25 \<lparr>jobs = [jobR1], dlq = []\<rparr>))) = 1"
    by (simp add: available_def life_defs)
  from n c show ?thesis
    by (simp add: call_defs life_defs job2_def)
qed

section \<open>The lease fields on the way out of running\<close>

lemma lease_fields_kept_null:
  "(submitJob tenant p key trace newId now st = Inr (j, st1) \<and> list_all leaseFieldsNull (jobs st)
      \<longrightarrow> list_all leaseFieldsNull (jobs st1)) \<and>
   (distinct (map jid (jobs st)) \<and> acquireLease w now st = (r, st2) \<and> list_all leaseFieldsNull (jobs st)
      \<longrightarrow> list_all leaseFieldsNull (jobs st2)) \<and>
   (distinct (map jid (jobs st)) \<and> retryCount h < maxRetries h \<and> retryJob h m now newId st = Inr st3 \<and>
    list_all leaseFieldsNull (jobs st)
      \<longrightarrow> list_all leaseFieldsNull (jobs st3))"
proof (intro conjI impI)
  assume a: "submitJob tenant p key trace newId now st = Inr (j, st1) \<and> list_all leaseFieldsNull (jobs st)"
  with submitJob_effect [of tenant p key trace newId now st j st1]
  show "list_all leaseFieldsNull (jobs st1)"
    by (auto simp: leaseFieldsNull_def)
next
  assume a: "distinct (map jid (jobs st)) \<and> acquireLease w now st = (r, st2) \<and> list_all leaseFieldsNull (jobs st)"
  show "list_all leaseFieldsNull (jobs st2)"
  proof (cases r)
    case None
    with a have "st2 = st" by (auto simp: acquireLease_def split: option.splits sum.splits)
    with a show ?thesis by simp
  next
    case (Some u)
    with a acquireLease_effect [of st w now u st2] show ?thesis
      by (auto simp: list_all_iff leaseFieldsNull_def)
  qed
next
  assume a: "distinct (map jid (jobs st)) \<and> retryCount h < maxRetries h \<and> retryJob h m now newId st = Inr st3 \<and>
    list_all leaseFieldsNull (jobs st)"
  with retry_effect [of st h m now newId st3] show "list_all leaseFieldsNull (jobs st3)"
    by (auto simp: list_all_iff leaseFieldsNull_def)
qed

text \<open>
  C3, evaluated: a job is leased at 10 and acknowledged at 20. The acknowledged row is
  completed and still carries the worker and the lease. The same holds for the row that
  the fourth failure sets to failed. Submitting, leasing and retrying keep the invariant
  (\<open>lease_fields_kept_null\<close>); \<open>retryJob\<close> clears both fields, \<open>acknowledgeJob\<close> and
  \<open>moveToDeadLetterQueue\<close> do not.
\<close>

theorem lease_fields_not_cleared:
  "acquireLease ''w1'' 10 \<lparr>jobs = [job1], dlq = []\<rparr> = (Some jobL1, \<lparr>jobs = [jobL1], dlq = []\<rparr>) \<and>
   acknowledgeJob ''j1'' 20 \<lparr>jobs = [jobL1], dlq = []\<rparr> = Inr \<lparr>jobs = [jobA1], dlq = []\<rparr> \<and>
   status jobA1 = Completed \<and> workerId jobA1 = Some ''w1'' \<and> leaseExpiresAt jobA1 = Some 300010 \<and>
   \<not> leaseFieldsNull jobA1 \<and>
   retryJob jobL4 ''boom'' 80 ''d1'' \<lparr>jobs = [jobL4], dlq = []\<rparr> = Inr \<lparr>jobs = [jobF4], dlq = [dl4]\<rparr> \<and>
   status jobF4 = Failed \<and> workerId jobF4 = Some ''w1'' \<and> leaseExpiresAt jobF4 = Some 300070 \<and>
   \<not> leaseFieldsNull jobF4"
proof -
  have "retryJob jobL4 ''boom'' 80 ''d1'' \<lparr>jobs = [jobL4], dlq = []\<rparr> = Inr \<lparr>jobs = [jobF4], dlq = [dl4]\<rparr>"
    using ev_fail4 by (simp add: processJob_def)
  then show ?thesis
    by (simp add: ev_lease1 ev_ack1) (simp add: life_defs leaseFieldsNull_def)
qed

theorem lease_fields_not_cleared_witness:
  "status jobA1 = Completed \<and> workerId jobA1 \<noteq> None \<and> leaseExpiresAt jobA1 \<noteq> None \<and>
   status jobF4 = Failed \<and> workerId jobF4 \<noteq> None \<and> leaseExpiresAt jobF4 \<noteq> None"
  using lease_fields_not_cleared by simp

section \<open>Retry\<close>

text \<open>
  C4. When the job object \<open>j\<close> of a worker has \<open>retry_count < max_retries\<close> and its row
  exists, \<open>retryJob\<close> sets the row pending, its retry count to that of \<open>j\<close> plus one, the
  worker and the lease to null, the error message to the message of the error, and
  \<open>created_at\<close> to \<open>now + min(30000 * 2^retry_count, 600000)\<close>. In every state of every run,
  timely or not, every job has \<open>retry_count \<le> max_retries\<close>.
\<close>

theorem retry_postcondition:
  "(distinct (map jid (jobs st)) \<and> jid j \<in> set (map jid (jobs st)) \<and> retryCount j < maxRetries j \<longrightarrow>
      retryJob j message now newId st =
        Inr (st\<lparr>jobs := map (\<lambda>r. if jid r = jid j
                   then r\<lparr>status := Pending, retryCount := retryCount j + 1, workerId := None,
                          leaseExpiresAt := None, errorMessage := Some message,
                          createdAt := now + min (30000 * 2 ^ retryCount j) 600000\<rparr>
                   else r) (jobs st)\<rparr>)) \<and>
   (reachable timely s \<longrightarrow> (\<forall>r\<in>set (jobs (sysStore s)). retryCount r \<le> maxRetries r))"
proof (intro conjI impI ballI)
  assume a: "distinct (map jid (jobs st)) \<and> jid j \<in> set (map jid (jobs st)) \<and> retryCount j < maxRetries j"
  then obtain u where
    "jobUpdate (jid j) (\<lambda>r. r\<lparr>status := Pending, retryCount := retryCount j + 1, workerId := None,
                          leaseExpiresAt := None, errorMessage := Some message,
                          createdAt := now + backoffMs (retryCount j)\<rparr>) st =
      Inr (u, st\<lparr>jobs := map (\<lambda>r. if jid r = jid j
                   then r\<lparr>status := Pending, retryCount := retryCount j + 1, workerId := None,
                          leaseExpiresAt := None, errorMessage := Some message,
                          createdAt := now + backoffMs (retryCount j)\<rparr>
                   else r) (jobs st)\<rparr>)"
    using jobUpdate_by_id [of "jid j" st] by blast
  with a show "retryJob j message now newId st =
        Inr (st\<lparr>jobs := map (\<lambda>r. if jid r = jid j
                   then r\<lparr>status := Pending, retryCount := retryCount j + 1, workerId := None,
                          leaseExpiresAt := None, errorMessage := Some message,
                          createdAt := now + min (30000 * 2 ^ retryCount j) 600000\<rparr>
                   else r) (jobs st)\<rparr>)"
    by (simp add: retryJob_def backoffMs_def)
next
  fix r assume "reachable timely s" "r \<in> set (jobs (sysStore s))"
  then show "retryCount r \<le> maxRetries r" by (rule reachable_retry_bound)
qed

theorem retry_postcondition_witness:
  "retryJob jobL2 ''boom'' 40 ''d1'' \<lparr>jobs = [jobL2], dlq = []\<rparr> = Inr \<lparr>jobs = [jobR2], dlq = []\<rparr> \<and>
   retryCount jobL2 = 1 \<and> retryCount jobR2 = 2 \<and> createdAt jobR2 = 40 + 60000 \<and>
   reachable True \<lparr>sysStore = \<lparr>jobs = [jobR3], dlq = []\<rparr>, sysClock = 60, sysHeld = []\<rparr> \<and>
   retryCount jobR3 \<le> maxRetries jobR3"
proof -
  have h: "distinct (map jid (jobs \<lparr>jobs = [jobL2], dlq = []\<rparr>)) \<and>
           jid jobL2 \<in> set (map jid (jobs \<lparr>jobs = [jobL2], dlq = []\<rparr>)) \<and>
           retryCount jobL2 < maxRetries jobL2"
    by (simp add: life_defs)
  note t = retry_postcondition [where st = "\<lparr>jobs = [jobL2], dlq = []\<rparr>" and j = jobL2
      and message = "''boom''" and now = 40 and newId = "''d1''" and timely = True
      and s = "\<lparr>sysStore = \<lparr>jobs = [jobR3], dlq = []\<rparr>, sysClock = 60, sysHeld = []\<rparr>"]
  from t h have "retryJob jobL2 ''boom'' 40 ''d1'' \<lparr>jobs = [jobL2], dlq = []\<rparr> = Inr \<lparr>jobs = [jobR2], dlq = []\<rparr>"
    by (simp add: life_defs)
  moreover from t reach_pending3 [of True] have "retryCount jobR3 \<le> maxRetries jobR3" by simp
  ultimately show ?thesis using reach_pending3 [of True] by (simp add: life_defs)
qed

section \<open>Dead letters\<close>




section \<open>The start time\<close>

text \<open>
  C6, as stated, in the life of one job: leased at 10, \<open>started_at\<close> is 10; the attempt
  fails at 20 and the job is pending again with \<open>started_at\<close> 10; leased again at 30,
  \<open>started_at\<close> is 30.
\<close>

theorem startedAt_assignment_counterexample:
  "acquireLease ''w1'' 10 \<lparr>jobs = [job1], dlq = []\<rparr> = (Some jobL1, \<lparr>jobs = [jobL1], dlq = []\<rparr>) \<and>
   startedAt jobL1 = Some 10 \<and>
   retryJob jobL1 ''boom'' 20 ''d1'' \<lparr>jobs = [jobL1], dlq = []\<rparr> = Inr \<lparr>jobs = [jobR1], dlq = []\<rparr> \<and>
   status jobR1 = Pending \<and> startedAt jobR1 = Some 10 \<and>
   acquireLease ''w1'' 30 \<lparr>jobs = [jobR1], dlq = []\<rparr> = (Some jobL2, \<lparr>jobs = [jobL2], dlq = []\<rparr>) \<and>
   startedAt jobL2 = Some 30"
proof -
  have "retryJob jobL1 ''boom'' 20 ''d1'' \<lparr>jobs = [jobL1], dlq = []\<rparr> = Inr \<lparr>jobs = [jobR1], dlq = []\<rparr>"
    using ev_fail1 by (simp add: processJob_def)
  then show ?thesis by (simp add: ev_lease1 ev_lease2) (simp add: life_defs)
qed

text \<open>
  C6 as amended. The lease sets \<open>started_at\<close> to \<open>now\<close> when the job it takes is pending (the
  first lease, and every lease after a retry) and keeps it when the job is running with an
  expired lease; the other rows keep theirs. An acknowledgement, a retry and a dead-lettering
  change no \<open>started_at\<close>, and a submission adds at most a row whose \<open>started_at\<close> is null.
\<close>

theorem startedAt_assignment:
  "(distinct (map jid (jobs st)) \<and> acquireLease w now st = (Some u, st1) \<longrightarrow>
      (\<exists>a\<in>set (jobs st). available now a \<and> jid u = jid a \<and>
         startedAt u = (if status a = Pending then Some now else startedAt a) \<and>
         jobs st1 = map (\<lambda>r. if jid r = jid a then u else r) (jobs st))) \<and>
   (acquireLease w now st = (None, st2) \<longrightarrow> st2 = st) \<and>
   (acknowledgeJob i now st = Inr st3 \<longrightarrow> map startedAt (jobs st3) = map startedAt (jobs st)) \<and>
   (retryJob j message now newId st = Inr st4 \<longrightarrow> map startedAt (jobs st4) = map startedAt (jobs st)) \<and>
   (submitJob tenant p key trace newId now st = Inr (n, st5) \<longrightarrow>
      st5 = st \<or> (jobs st5 = jobs st @ [n] \<and> startedAt n = None))"
proof (intro conjI impI)
  assume "distinct (map jid (jobs st)) \<and> acquireLease w now st = (Some u, st1)"
  then show "\<exists>a\<in>set (jobs st). available now a \<and> jid u = jid a \<and>
         startedAt u = (if status a = Pending then Some now else startedAt a) \<and>
         jobs st1 = map (\<lambda>r. if jid r = jid a then u else r) (jobs st)"
    using acquireLease_row [of st w now u st1] by blast
next
  assume "acquireLease w now st = (None, st2)"
  then show "st2 = st" by (rule acquireLease_None)
next
  assume "acknowledgeJob i now st = Inr st3"
  then show "map startedAt (jobs st3) = map startedAt (jobs st)" by (rule acknowledgeJob_startedAt)
next
  assume "retryJob j message now newId st = Inr st4"
  then show "map startedAt (jobs st4) = map startedAt (jobs st)" by (rule retryJob_startedAt)
next
  assume "submitJob tenant p key trace newId now st = Inr (n, st5)"
  from submitJob_effect [OF this] show "st5 = st \<or> (jobs st5 = jobs st @ [n] \<and> startedAt n = None)"
    by auto
qed

theorem startedAt_assignment_witness:
  "acquireLease ''w2'' 400000 \<lparr>jobs = [jobL4], dlq = []\<rparr> = (Some jobS5, \<lparr>jobs = [jobS5], dlq = []\<rparr>) \<and>
   status jobL4 = Running \<and> startedAt jobL4 = Some 70 \<and> startedAt jobS5 = Some 70 \<and>
   status job1 = Pending \<and> startedAt job1 = None \<and> startedAt jobL1 = Some 10 \<and>
   acknowledgeJob ''j1'' 20 \<lparr>jobs = [jobL1], dlq = []\<rparr> = Inr \<lparr>jobs = [jobA1], dlq = []\<rparr> \<and>
   startedAt jobA1 = startedAt jobL1 \<and>
   retryJob jobL4 ''boom'' 80 ''d1'' \<lparr>jobs = [jobL4], dlq = []\<rparr> = Inr \<lparr>jobs = [jobF4], dlq = [dl4]\<rparr> \<and>
   startedAt jobF4 = startedAt jobL4 \<and>
   submitJob ''A'' payloadX None ''t1'' ''j1'' 0 \<lparr>jobs = [], dlq = []\<rparr> = Inr (job1, \<lparr>jobs = [job1], dlq = []\<rparr>)"
proof -
  have d: "distinct (map jid (jobs \<lparr>jobs = [jobL4], dlq = []\<rparr>))" by simp
  have f: "retryJob jobL4 ''boom'' 80 ''d1'' \<lparr>jobs = [jobL4], dlq = []\<rparr> = Inr \<lparr>jobs = [jobF4], dlq = [dl4]\<rparr>"
    using ev_fail4 by (simp add: processJob_def)
  from startedAt_assignment [THEN conjunct1, of "\<lparr>jobs = [jobL4], dlq = []\<rparr>" "''w2''" 400000
      jobS5 "\<lparr>jobs = [jobS5], dlq = []\<rparr>"] d ev_steal5
  have 1: "startedAt jobS5 = (if status jobL4 = Pending then Some 400000 else startedAt jobL4)"
    by auto
  from startedAt_assignment [where st = "\<lparr>jobs = [jobL1], dlq = []\<rparr>" and i = "''j1''" and now = 20
      and ?st3.0 = "\<lparr>jobs = [jobA1], dlq = []\<rparr>"] ev_ack1
  have 2: "startedAt jobA1 = startedAt jobL1" by simp
  from startedAt_assignment [where st = "\<lparr>jobs = [jobL4], dlq = []\<rparr>" and j = jobL4 and message = "''boom''"
      and now = 80 and newId = "''d1''" and ?st4.0 = "\<lparr>jobs = [jobF4], dlq = [dl4]\<rparr>"] f
  have 3: "startedAt jobF4 = startedAt jobL4" by simp
  have 4: "status jobL4 = Running" "startedAt jobL4 = Some 70" "status job1 = Pending"
    "startedAt job1 = None" "startedAt jobL1 = Some 10"
    by (simp_all add: life_defs)
  from 1 2 3 4 f show ?thesis by (simp add: ev_steal5 ev_ack1 ev_submit1)
qed

section \<open>The rate gate\<close>

lemma checkRateLimit_deny_iff:
  "fst (checkRateLimit fault tenant now rnd r) = False \<longleftrightarrow>
     fault \<noteq> Some 0 \<and> fault \<noteq> Some 1 \<and>
     10 \<le> length (zsets (evicted tenant now r) (''rate:'' @ tenant))"
  by (auto simp: checkRateLimit_def zRemRangeByScore_def zCard_def zAdd_def expire_def
        evicted_def Let_def split: sum.splits)


lemma checkRateLimit_deny_state:
  "fst (checkRateLimit fault tenant now rnd r) = False \<Longrightarrow>
   snd (checkRateLimit fault tenant now rnd r) = evicted tenant now r"
  by (auto simp: checkRateLimit_def zRemRangeByScore_def zCard_def zAdd_def expire_def
        evicted_def Let_def split: sum.splits if_splits)






section \<open>Metrics\<close>

lemma statusName_inj: "statusName s = statusName s' \<longleftrightarrow> s = s'"
  by (cases s; cases s') simp_all

text \<open>
  The first copy of \<open>getMetrics\<close>, for a tenant: the three numbers are those of the tenant,
  and the four buckets are all there.
\<close>

lemma getMetrics_scoped:
  assumes "t \<noteq> []"
  shows "jobs_total (getMetrics (Some t) st) = length (filter (\<lambda>j. tenantId j = t) (jobs st)) \<and>
         (\<forall>s. jobs_by_status (getMetrics (Some t) st) (statusName s) =
                Some (length (filter (\<lambda>j. status j = s) (filter (\<lambda>j. tenantId j = t) (jobs st))))) \<and>
         dom (jobs_by_status (getMetrics (Some t) st)) = {''pending'', ''running'', ''completed'', ''failed''} \<and>
         dlq_size (getMetrics (Some t) st) = dlqCountOfTenant t st"
proof -
  have "whereTenant (Some t) = (\<lambda>j. tenantId j = t)"
    using assms by (simp add: whereTenant_def fun_eq_iff)
  then have w: "filter (whereTenant (Some t)) (jobs st) = filter (\<lambda>j. tenantId j = t) (jobs st)"
    by simp
  have b: "jobs_by_status (getMetrics (Some t) st) (statusName s) =
                Some (length (filter (\<lambda>j. status j = s) (filter (\<lambda>j. tenantId j = t) (jobs st))))" for s
    by (cases s) (simp_all add: getMetrics_def Let_def w groupByStatus_def)
  have d: "dom (jobs_by_status (getMetrics (Some t) st)) = {''pending'', ''running'', ''completed'', ''failed''}"
    by (auto simp: getMetrics_def Let_def w groupByStatus_def split: if_splits)
  show ?thesis using assms b d by (simp add: getMetrics_def Let_def w)
qed


section \<open>Validation of a submission\<close>




section \<open>The deny path of the rate gate\<close>

text \<open>
  C10. When \<open>checkRateLimit\<close> denies, the store it leaves is the one it was given with the
  entries scored from 0 to \<open>now - 60000\<close> removed from the window of the tenant: no entry
  is added, at least ten entries remain, and no time to live is changed.
\<close>

theorem checkRateLimit_deny_frame:
  assumes "fst (checkRateLimit fault tenant now rnd r) = False"
  shows "snd (checkRateLimit fault tenant now rnd r) =
           r\<lparr>zsets := (zsets r)(''rate:'' @ tenant :=
                 filter (\<lambda>(m, sc). \<not> (0 \<le> sc \<and> sc \<le> now - 60000)) (zsets r (''rate:'' @ tenant)))\<rparr> \<and>
         ttl (snd (checkRateLimit fault tenant now rnd r)) = ttl r \<and>
         set (zsets (snd (checkRateLimit fault tenant now rnd r)) (''rate:'' @ tenant))
           \<subseteq> set (zsets r (''rate:'' @ tenant)) \<and>
         10 \<le> length (zsets (snd (checkRateLimit fault tenant now rnd r)) (''rate:'' @ tenant))"
proof -
  from assms have s: "snd (checkRateLimit fault tenant now rnd r) = evicted tenant now r"
    by (rule checkRateLimit_deny_state)
  from assms have l: "10 \<le> length (zsets (evicted tenant now r) (''rate:'' @ tenant))"
    using checkRateLimit_deny_iff [of fault tenant now rnd r] by blast
  then have "filter (\<lambda>(m, sc). \<not> (0 \<le> sc \<and> sc \<le> now - 60000)) (zsets r (''rate:'' @ tenant)) \<noteq> []"
    by (auto simp: evicted_def Let_def)
  then have e: "evicted tenant now r =
           r\<lparr>zsets := (zsets r)(''rate:'' @ tenant :=
                 filter (\<lambda>(m, sc). \<not> (0 \<le> sc \<and> sc \<le> now - 60000)) (zsets r (''rate:'' @ tenant)))\<rparr>"
    by (simp add: evicted_def Let_def)
  have "ttl (evicted tenant now r) = ttl r" by (subst e) simp
  moreover have "set (zsets (evicted tenant now r) (''rate:'' @ tenant)) \<subseteq> set (zsets r (''rate:'' @ tenant))"
    by (subst e) auto
  ultimately show ?thesis using s l e by simp
qed

theorem checkRateLimit_deny_frame_witness:
  "fst (checkRateLimit None ''A'' 2000 ''0.5'' redisFull) = False \<and>
   snd (checkRateLimit None ''A'' 2000 ''0.5'' redisFull) = redisFull"
proof -
  have d: "fst (checkRateLimit None ''A'' 2000 ''0.5'' redisFull) = False"
    by (rule rate_deny_full)
  have "redisFull\<lparr>zsets := (zsets redisFull)(''rate:'' @ ''A'' :=
                 filter (\<lambda>(m, sc). \<not> (0 \<le> sc \<and> sc \<le> 2000 - 60000)) (zsets redisFull (''rate:'' @ ''A'')))\<rparr>
        = redisFull"
    by (simp add: redisFull_def fun_eq_iff)
  with checkRateLimit_deny_frame [OF d] d show ?thesis by simp
qed

end
